theory Spec2Isabelle
  imports Main
begin

section \<open>The logging package: data model\<close>

text \<open>
  The package wraps Go's \<^verbatim>\<open>log/slog\<close>. \<^verbatim>\<open>Level\<close> is an alias of \<^verbatim>\<open>slog.Level\<close>, a
  signed integer; the four constants are slog's own (\<^verbatim>\<open>LevelDebug = -4\<close>,
  \<^verbatim>\<open>LevelInfo = 0\<close>, \<^verbatim>\<open>LevelWarn = 4\<close>, \<^verbatim>\<open>LevelError = 8\<close>). The code only stores and
  compares levels, so no wrap-around is involved and levels are modelled as \<open>int\<close>.
\<close>

type_synonym Level = int

definition LevelError :: Level where "LevelError = 8"
definition LevelWarn :: Level where "LevelWarn = 4"
definition LevelInfo :: Level where "LevelInfo = 0"
definition LevelDebug :: Level where "LevelDebug = - 4"

text \<open>\<^verbatim>\<open>HandlerType\<close> is a named string type with three supported values.\<close>

type_synonym HandlerType = string

definition Console :: HandlerType where "Console = ''console''"
definition JSON :: HandlerType where "JSON = ''json''"
definition Text :: HandlerType where "Text = ''text''"

definition HandlerType_String :: "HandlerType \<Rightarrow> string" where
  "HandlerType_String h = h"

definition IsValid :: "HandlerType \<Rightarrow> bool" where
  "IsValid h = (if h = Console \<or> h = Text \<or> h = JSON then True else False)"

text \<open>
  Pointers. A Go pointer is either nil or refers to an object. A \<^verbatim>\<open>*slog.LevelVar\<close> is
  an address into the store of level cells below; a \<^verbatim>\<open>*slog.Logger\<close> refers to an
  immutable value and is modelled by that value.
\<close>

datatype 'x ptr = NilPtr | Ptr 'x

type_synonym addr = nat

text \<open>
  What \<^verbatim>\<open>slog.New(h)\<close> wraps: the handler built by one of the three constructors over the
  writer \<^verbatim>\<open>out\<close> and the options \<^verbatim>\<open>&slog.HandlerOptions{Level: lvl}\<close>, together with the
  attributes and groups bound so far by \<^verbatim>\<open>With\<close> and \<^verbatim>\<open>WithGroup\<close>.
\<close>

datatype handler_kind = ConsoleHandler | TextHandler | JSONHandler

datatype 'a binding = Attrs "'a list" | Group string

record ('w, 'a) slog_Logger =
  kind :: handler_kind
  writer :: 'w
  opts_Level :: addr
  bound :: "'a binding list"

text \<open>
  \<^verbatim>\<open>type Logger struct { *slog.Logger; Level *slog.LevelVar }\<close>. Both fields are
  exported pointers, so either may be nil in a hand-built value.
\<close>

record ('w, 'a) Logger =
  Logger :: "('w, 'a) slog_Logger ptr"
  Level :: "addr ptr"

text \<open>
  The state the package acts on: the store of \<^verbatim>\<open>slog.LevelVar\<close> cells (every address
  holds one level), the next address \<^verbatim>\<open>new\<close> hands out, and the bytes written to
  \<^verbatim>\<open>os.Stderr\<close> so far.
\<close>

record world =
  levelvars :: "addr \<Rightarrow> Level"
  next_addr :: addr
  stderr :: string

section \<open>Library functions the package calls\<close>

text \<open>
  \<^verbatim>\<open>strings.ToLower\<close>: a string whose bytes are all below \<^verbatim>\<open>utf8.RuneSelf\<close> (0x80) has each
  byte in \<^verbatim>\<open>'A'..'Z'\<close> increased by \<^verbatim>\<open>'a' - 'A'\<close>; any other string is mapped rune by rune
  through the Unicode tables, which is the parameter \<open>U\<close> here.
\<close>

definition is_ascii :: "char \<Rightarrow> bool" where
  "is_ascii c = ((of_char c :: nat) < 128)"

definition lower_byte :: "char \<Rightarrow> char" where
  "lower_byte c =
     (if (65::nat) \<le> of_char c \<and> of_char c \<le> (90::nat)
      then char_of ((of_char c :: nat) + 32) else c)"

definition ToLower :: "(string \<Rightarrow> string) \<Rightarrow> string \<Rightarrow> string" where
  "ToLower U s = (if list_all is_ascii s then map lower_byte s else U s)"

text \<open>
  The \<^verbatim>\<open>%q\<close> verb of \<^verbatim>\<open>fmt\<close> (\<^verbatim>\<open>strconv.Quote\<close>): the operand between double quotes, with
  the double quote and the backslash backslashed, printable ASCII kept, the control
  characters with a short escape written so and the others as \<^verbatim>\<open>\xNN\<close>. The body for a
  string with a byte from 0x80 on depends on the Unicode tables and is the parameter
  \<open>Q\<close>.
\<close>

definition lowerhex :: "nat \<Rightarrow> char" where
  "lowerhex n = ''0123456789abcdef'' ! (n mod 16)"

definition escape_byte :: "char \<Rightarrow> string" where
  "escape_byte c =
     (let r = (of_char c :: nat) in
      if r = 0x22 \<or> r = 0x5C then [CHR 0x5C, c]
      else if 0x20 \<le> r \<and> r \<le> 0x7E then [c]
      else if r = 7 then [CHR 0x5C, CHR ''a'']
      else if r = 8 then [CHR 0x5C, CHR ''b'']
      else if r = 12 then [CHR 0x5C, CHR ''f'']
      else if r = 10 then [CHR 0x5C, CHR ''n'']
      else if r = 13 then [CHR 0x5C, CHR ''r'']
      else if r = 9 then [CHR 0x5C, CHR ''t'']
      else if r = 11 then [CHR 0x5C, CHR ''v'']
      else [CHR 0x5C, CHR ''x'', lowerhex (r div 16), lowerhex r])"

definition Quote :: "(string \<Rightarrow> string) \<Rightarrow> string \<Rightarrow> string" where
  "Quote Q s =
     [CHR 0x22] @ (if list_all is_ascii s then concat (map escape_byte s) else Q s)
       @ [CHR 0x22]"

text \<open>
  \<^verbatim>\<open>slog.Logger.With\<close> and \<^verbatim>\<open>slog.Logger.WithGroup\<close> return the receiver itself for no
  arguments or an empty name, and otherwise a clone whose handler has the attributes or
  the group added; cloning dereferences the receiver, so a nil receiver panics there
  (\<open>None\<close>).
\<close>

definition slog_With ::
  "'a list \<Rightarrow> ('w, 'a) slog_Logger ptr \<Rightarrow> ('w, 'a) slog_Logger ptr option" where
  "slog_With args p =
     (if args = [] then Some p
      else case p of NilPtr \<Rightarrow> None
           | Ptr g \<Rightarrow> Some (Ptr (g\<lparr>bound := bound g @ [Attrs args]\<rparr>)))"

definition slog_WithGroup ::
  "string \<Rightarrow> ('w, 'a) slog_Logger ptr \<Rightarrow> ('w, 'a) slog_Logger ptr option" where
  "slog_WithGroup name p =
     (if name = [] then Some p
      else case p of NilPtr \<Rightarrow> None
           | Ptr g \<Rightarrow> Some (Ptr (g\<lparr>bound := bound g @ [Group name]\<rparr>)))"

text \<open>
  \<^verbatim>\<open>slog.LevelVar\<close>: \<^verbatim>\<open>Set\<close> stores into the cell, \<^verbatim>\<open>Level\<close> loads from it; both
  dereference the pointer. A handler built with \<^verbatim>\<open>HandlerOptions{Level: lvl}\<close> admits a
  record when \<^verbatim>\<open>l >= minLevel\<close>, \<^verbatim>\<open>minLevel\<close> being the cell's value at that moment.
\<close>

definition LevelVar_Set :: "addr ptr \<Rightarrow> Level \<Rightarrow> world \<Rightarrow> world option" where
  "LevelVar_Set v l st =
     (case v of NilPtr \<Rightarrow> None
      | Ptr a \<Rightarrow> Some (st\<lparr>levelvars := (levelvars st)(a := l)\<rparr>))"

definition LevelVar_Level :: "addr ptr \<Rightarrow> world \<Rightarrow> Level option" where
  "LevelVar_Level v st = (case v of NilPtr \<Rightarrow> None | Ptr a \<Rightarrow> Some (levelvars st a))"

definition Enabled :: "Level \<Rightarrow> Level \<Rightarrow> bool" where
  "Enabled minLevel l = (l \<ge> minLevel)"

section \<open>The package's functions\<close>

text \<open>
  Functions that dereference a pointer return \<open>None\<close> where Go panics on nil. Receivers
  are taken by value: no function of the package writes a field of a \<^verbatim>\<open>Logger\<close>.
\<close>

definition New ::
  "(string \<Rightarrow> string) \<Rightarrow> 'w \<Rightarrow> HandlerType \<Rightarrow> world \<Rightarrow> ('w, 'a) Logger \<times> world" where
  "New Q out handler st =
     (let lvl = next_addr st;
          st1 = st\<lparr>levelvars := (levelvars st)(lvl := 0), next_addr := Suc lvl\<rparr>;
          mk = (\<lambda>k. \<lparr>kind = k, writer = out, opts_Level = lvl, bound = []\<rparr>);
          (h, st2) =
            (if handler = Console then (mk ConsoleHandler, st1)
             else if handler = Text then (mk TextHandler, st1)
             else if handler = JSON then (mk JSONHandler, st1)
             else (mk JSONHandler,
                   st1\<lparr>stderr := stderr st1 @ ''warning: invalid handler type ''
                      @ Quote Q (HandlerType_String handler)
                      @ '', falling back to JSON'' @ [CHR 0x0A]\<rparr>))
      in (\<lparr>Logger = Ptr h, Level = Ptr lvl\<rparr>, st2))"

definition SetLevel :: "('w, 'a) Logger \<Rightarrow> Level \<Rightarrow> world \<Rightarrow> world option" where
  "SetLevel l level st = LevelVar_Set (Level l) level st"

definition SetLevelByCounter :: "('w, 'a) Logger \<Rightarrow> int \<Rightarrow> world \<Rightarrow> world option" where
  "SetLevelByCounter l i st =
     (let lvl = (if i \<ge> 3 then LevelDebug
                 else if i = 2 then LevelInfo
                 else if i = 1 then LevelWarn
                 else LevelError)
      in SetLevel l lvl st)"

text \<open>\<^verbatim>\<open>fmt.Errorf\<close> builds an error value from its formatted message.\<close>

datatype error = Errorf string

definition SetLevelByName ::
  "(string \<Rightarrow> string) \<Rightarrow> (string \<Rightarrow> string) \<Rightarrow> ('w, 'a) Logger \<Rightarrow> string \<Rightarrow> world
     \<Rightarrow> (error option \<times> world) option" where
  "SetLevelByName U Q l name st =
     (let n = ToLower U name in
      if n = ''error'' then map_option (Pair None) (SetLevel l LevelError st)
      else if n = ''warn'' \<or> n = ''warning'' then map_option (Pair None) (SetLevel l LevelWarn st)
      else if n = ''info'' then map_option (Pair None) (SetLevel l LevelInfo st)
      else if n = ''debug'' then map_option (Pair None) (SetLevel l LevelDebug st)
      else Some (Some (Errorf (''invalid log level name '' @ Quote Q name
                   @ '': must be one of error, warn, info, debug'')), st))"

definition With :: "('w, 'a) Logger \<Rightarrow> 'a list \<Rightarrow> ('w, 'a) Logger option" where
  "With l args =
     (case slog_With args (Logger l) of None \<Rightarrow> None
      | Some p \<Rightarrow> Some \<lparr>Logger = p, Level = Level l\<rparr>)"

definition WithGroup :: "('w, 'a) Logger \<Rightarrow> string \<Rightarrow> ('w, 'a) Logger option" where
  "WithGroup l name =
     (case slog_WithGroup name (Logger l) of None \<Rightarrow> None
      | Some p \<Rightarrow> Some \<lparr>Logger = p, Level = Level l\<rparr>)"

section \<open>Notions of the specification\<close>

text \<open>
  A sequence of derivations is a list of \<^verbatim>\<open>With\<close> and \<^verbatim>\<open>WithGroup\<close> calls, each applied to
  the handle the previous one returned.
\<close>

datatype 'a derivation = ByWith "'a list" | ByWithGroup string

fun derive_step :: "'a derivation \<Rightarrow> ('w, 'a) Logger \<Rightarrow> ('w, 'a) Logger option" where
  "derive_step (ByWith args) l = With l args"
| "derive_step (ByWithGroup name) l = WithGroup l name"

fun derive :: "'a derivation list \<Rightarrow> ('w, 'a) Logger \<Rightarrow> ('w, 'a) Logger option" where
  "derive [] l = Some l"
| "derive (d # ds) l = (case derive_step d l of None \<Rightarrow> None | Some l' \<Rightarrow> derive ds l')"

text \<open>
  The level names of the specification, and what a case variant of a name is: the same
  letters, each in lower or in upper case.
\<close>

definition level_names :: "(string \<times> Level) list" where
  "level_names =
     [(''error'', LevelError), (''warn'', LevelWarn), (''warning'', LevelWarn),
      (''info'', LevelInfo), (''debug'', LevelDebug)]"

definition is_lower_letter :: "char \<Rightarrow> bool" where
  "is_lower_letter c = ((97::nat) \<le> of_char c \<and> of_char c \<le> (122::nat))"

definition upper_of :: "char \<Rightarrow> char" where
  "upper_of c = char_of ((of_char c :: nat) - 32)"

definition same_letter :: "char \<Rightarrow> char \<Rightarrow> bool" where
  "same_letter a c = (c = a \<or> c = upper_of a)"

definition case_variant :: "string \<Rightarrow> string \<Rightarrow> bool" where
  "case_variant name s = list_all2 same_letter name s"

text \<open>The severities from least to most verbose; the position in the list is the rank.\<close>

definition severities :: "Level list" where
  "severities = [LevelError, LevelWarn, LevelInfo, LevelDebug]"

text \<open>
  The diagnostic line as the specification writes it, with the value between double
  quotes as it is, and the characters \<^verbatim>\<open>%q\<close> leaves as they are: printable ASCII other
  than the double quote and the backslash.
\<close>

definition claimed_diagnostic :: "string \<Rightarrow> string" where
  "claimed_diagnostic v =
     ''warning: invalid handler type '' @ [CHR 0x22] @ v @ [CHR 0x22]
       @ '', falling back to JSON''"

definition is_plain :: "char \<Rightarrow> bool" where
  "is_plain c = ((0x20::nat) \<le> of_char c \<and> of_char c \<le> (0x7E::nat)
                   \<and> of_char c \<noteq> (0x22::nat) \<and> of_char c \<noteq> (0x5C::nat))"

section \<open>A concrete family of loggers\<close>

text \<open>
  A world with no cell allocated yet, the root logger \<^verbatim>\<open>New(out, JSON)\<close> builds in it, the
  world after that call, and two handles derived from the root.
\<close>

definition world0 :: world where
  "world0 = \<lparr>levelvars = (\<lambda>_. 8), next_addr = 0, stderr = []\<rparr>"

definition root0 :: "(unit, nat) Logger" where
  "root0 = fst (New id () JSON world0)"

definition world1 :: world where
  "world1 = snd (New id () JSON world0 :: (unit, nat) Logger \<times> world)"

definition child_a :: "(unit, nat) Logger" where
  "child_a = \<lparr>Logger = Ptr \<lparr>kind = JSONHandler, writer = (), opts_Level = 0,
                              bound = [Attrs [1, 2]]\<rparr>, Level = Ptr 0\<rparr>"

definition child_b :: "(unit, nat) Logger" where
  "child_b = \<lparr>Logger = Ptr \<lparr>kind = JSONHandler, writer = (), opts_Level = 0,
                              bound = [Group ''db'', Attrs [3]]\<rparr>, Level = Ptr 0\<rparr>"

text \<open>
  A name outside ASCII: the bytes \<^verbatim>\<open>C4 B0\<close> (the rune U+0130, capital I with dot above)
  followed by \<^verbatim>\<open>NFO\<close>. On such a string \<^verbatim>\<open>strings.ToLower\<close> takes its Unicode branch,
  \<^verbatim>\<open>Map(unicode.ToLower, s)\<close>; Go's case table maps U+0130 to U+0069 (\<^verbatim>\<open>i\<close>) and the
  ASCII capitals to their small letters. \<open>Map_ToLower_I_dot\<close> is that branch on strings
  made of ASCII bytes and the rune U+0130; bytes of other runes are not covered by it and
  are kept.
\<close>

fun Map_ToLower_I_dot :: "string \<Rightarrow> string" where
  "Map_ToLower_I_dot (a # b # s) =
     (if a = CHR 0xC4 \<and> b = CHR 0xB0 then CHR ''i'' # Map_ToLower_I_dot s
      else lower_byte a # Map_ToLower_I_dot (b # s))"
| "Map_ToLower_I_dot [a] = [lower_byte a]"
| "Map_ToLower_I_dot [] = []"

definition dotted_INFO :: string where
  "dotted_INFO = [CHR 0xC4, CHR 0xB0, CHR ''N'', CHR ''F'', CHR ''O'']"

section \<open>Auxiliary facts\<close>

lemma root0_eq:
  "root0 = \<lparr>Logger = Ptr \<lparr>kind = JSONHandler, writer = (), opts_Level = 0, bound = []\<rparr>,
            Level = Ptr 0\<rparr>"
  by (simp add: root0_def New_def Let_def world0_def JSON_def Console_def Text_def)

lemma world1_eq:
  "world1 = \<lparr>levelvars = (\<lambda>_. 8)(0 := 0), next_addr = Suc 0, stderr = []\<rparr>"
  by (simp add: world1_def New_def Let_def world0_def JSON_def Console_def Text_def)

lemma derive_child_a: "derive [ByWith [1, 2]] root0 = Some child_a"
  by (simp add: root0_eq child_a_def With_def slog_With_def)

lemma derive_child_b: "derive [ByWithGroup ''db'', ByWith [3]] root0 = Some child_b"
  by (simp add: root0_eq child_b_def With_def WithGroup_def slog_With_def slog_WithGroup_def)

lemma SetLevel_Ptr:
  "Level l = Ptr a \<Longrightarrow> SetLevel l x st = Some (st\<lparr>levelvars := (levelvars st)(a := x)\<rparr>)"
  by (simp add: SetLevel_def LevelVar_Set_def)

subsection \<open>Derivation keeps the level pointer\<close>

lemma With_Level: "With l args = Some l' \<Longrightarrow> Level l' = Level l"
  by (auto simp: With_def split: option.splits)

lemma WithGroup_Level: "WithGroup l name = Some l' \<Longrightarrow> Level l' = Level l"
  by (auto simp: WithGroup_def split: option.splits)

lemma derive_step_Level: "derive_step d l = Some l' \<Longrightarrow> Level l' = Level l"
  by (cases d) (auto dest: With_Level WithGroup_Level)

lemma derive_Level: "derive ds l = Some h \<Longrightarrow> Level h = Level l"
proof (induction ds arbitrary: l)
  case Nil
  then show ?case by simp
next
  case (Cons d ds)
  then obtain l' where s: "derive_step d l = Some l'" and r: "derive ds l' = Some h"
    by (auto split: option.splits)
  from Cons.IH [OF r] derive_step_Level [OF s] show ?case by simp
qed

lemma derive_step_total:
  "Logger l = Ptr g \<Longrightarrow> \<exists>l' g'. derive_step d l = Some l' \<and> Logger l' = Ptr g'"
  by (cases d) (auto simp: With_def WithGroup_def slog_With_def slog_WithGroup_def)

lemma derive_total: "Logger l = Ptr g \<Longrightarrow> \<exists>h. derive ds l = Some h"
proof (induction ds arbitrary: l g)
  case Nil
  then show ?case by simp
next
  case (Cons d ds)
  from derive_step_total [OF Cons.prems, of d]
  obtain l' g' where s: "derive_step d l = Some l'" and p: "Logger l' = Ptr g'" by blast
  from Cons.IH [OF p] s show ?case by simp
qed

subsection \<open>Lower-casing and case variants\<close>

lemma lower_byte_variant:
  assumes "is_lower_letter a" and "same_letter a c"
  shows "is_ascii c \<and> lower_byte c = a"
proof -
  let ?n = "of_char a :: nat"
  from assms(1) have r: "97 \<le> ?n" "?n \<le> 122" by (simp_all add: is_lower_letter_def)
  from assms(2) consider "c = a" | "c = char_of (?n - 32)"
    by (auto simp: same_letter_def upper_of_def)
  then show ?thesis
  proof cases
    case 1
    with r show ?thesis by (simp add: is_ascii_def lower_byte_def)
  next
    case 2
    from r have b: "65 \<le> ?n - 32" "?n - 32 \<le> 90" "?n - 32 + 32 = ?n" "?n - 32 < 128"
      by arith+
    from r have m: "(?n - 32) mod 256 = ?n - 32" by simp
    from 2 m have v: "(of_char c :: nat) = ?n - 32" by simp
    have "lower_byte c = char_of (?n - 32 + 32)"
      unfolding lower_byte_def v using b by simp
    then have "lower_byte c = a" by (simp only: b char_of_char)
    moreover have "is_ascii c" unfolding is_ascii_def v using b by simp
    ultimately show ?thesis by simp
  qed
qed

lemma variant_lower_byte: "same_letter (lower_byte c) c"
proof (cases "(65::nat) \<le> of_char c \<and> of_char c \<le> (90::nat)")
  case True
  let ?n = "of_char c :: nat"
  from True have "(?n + 32) mod 256 = ?n + 32" by simp
  then have "char_of ((of_char (char_of (?n + 32)) :: nat) - 32) = c" by simp
  with True show ?thesis by (simp add: same_letter_def upper_of_def lower_byte_def)
next
  case False
  then show ?thesis by (auto simp: same_letter_def lower_byte_def)
qed

lemma case_variant_lower:
  "list_all is_lower_letter n \<Longrightarrow> case_variant n s \<Longrightarrow>
     list_all is_ascii s \<and> map lower_byte s = n"
  unfolding case_variant_def
proof (induction n arbitrary: s)
  case Nil
  then show ?case by simp
next
  case (Cons a n)
  from Cons.prems(2) obtain c t where s: "s = c # t" and h: "same_letter a c"
    and t: "list_all2 same_letter n t"
    by (auto simp: list_all2_Cons1)
  from Cons.prems(1) have a: "is_lower_letter a" and n: "list_all is_lower_letter n"
    by simp_all
  from lower_byte_variant [OF a h] Cons.IH [OF n t] s show ?case by simp
qed

lemma case_variant_ToLower:
  "list_all is_lower_letter n \<Longrightarrow> case_variant n s \<Longrightarrow> ToLower U s = n"
  by (simp add: ToLower_def case_variant_lower)

lemma ToLower_case_variant: "list_all is_ascii s \<Longrightarrow> case_variant (ToLower U s) s"
  by (simp add: ToLower_def case_variant_def list_all2_map1 list_all2_same variant_lower_byte)

lemma fst_level_names:
  "fst ` set level_names = {''error'', ''warn'', ''warning'', ''info'', ''debug''}"
  by (simp add: level_names_def)

lemma level_names_lower: "(n, v) \<in> set level_names \<Longrightarrow> list_all is_lower_letter n"
  by (auto simp: level_names_def is_lower_letter_def)

lemma ascii_recognized_iff:
  assumes "list_all is_ascii name"
  shows "(ToLower U name \<in> fst ` set level_names)
           = (\<exists>n \<in> fst ` set level_names. case_variant n name)"
proof
  assume "ToLower U name \<in> fst ` set level_names"
  with ToLower_case_variant [OF assms, of U]
  show "\<exists>n \<in> fst ` set level_names. case_variant n name" by blast
next
  assume "\<exists>n \<in> fst ` set level_names. case_variant n name"
  then obtain n v where m: "(n, v) \<in> set level_names" and c: "case_variant n name" by auto
  from case_variant_ToLower [OF level_names_lower [OF m] c, of U] m
  show "ToLower U name \<in> fst ` set level_names" by force
qed

subsection \<open>The two outcomes of the lookup by name\<close>

lemma SetLevelByName_known:
  "(n, v) \<in> set level_names \<Longrightarrow> ToLower U name = n \<Longrightarrow> Level l = Ptr a \<Longrightarrow>
     SetLevelByName U Q l name st = Some (None, st\<lparr>levelvars := (levelvars st)(a := v)\<rparr>)"
  by (auto simp: level_names_def SetLevelByName_def SetLevel_Ptr)

lemma SetLevelByName_unknown:
  "ToLower U name \<notin> fst ` set level_names \<Longrightarrow>
     SetLevelByName U Q l name st =
       Some (Some (Errorf (''invalid log level name '' @ Quote Q name
                @ '': must be one of error, warn, info, debug'')), st)"
  by (simp add: fst_level_names SetLevelByName_def)

lemma verbose_unknown: "ToLower id ''verbose'' \<notin> fst ` set level_names"
proof -
  have "ToLower id ''verbose'' = ''verbose''" by code_simp
  then show ?thesis by (simp add: fst_level_names)
qed

subsection \<open>Quoting plain values\<close>

lemma plain_body:
  "list_all is_plain s \<Longrightarrow> list_all is_ascii s \<and> concat (map escape_byte s) = s"
  by (induction s) (auto simp: is_plain_def is_ascii_def escape_byte_def Let_def)

lemma Quote_plain: "list_all is_plain s \<Longrightarrow> Quote Q s = [CHR 0x22] @ s @ [CHR 0x22]"
  by (simp add: Quote_def plain_body)

section \<open>The shared level cell\<close>

text \<open>
  C1. Deriving a handle with \<^verbatim>\<open>With\<close> and \<^verbatim>\<open>WithGroup\<close>, any number of times, keeps the
  \<^verbatim>\<open>Level\<close> pointer of the root: the derived handle refers to the very same cell. Hence
  in every state any two handles of a family read the same level, and after
  \<^verbatim>\<open>SetLevel\<close> through one handle the new level is what every handle of the family,
  the root included, reads. A root whose embedded logger is not nil has a derived handle
  for every sequence of derivations.
\<close>

theorem shared_LevelVar:
  "(derive ds root = Some h \<longrightarrow> Level h = Level root)
   \<and> (derive dsa root = Some ha \<and> derive dsb root = Some hb \<longrightarrow>
        LevelVar_Level (Level ha) st = LevelVar_Level (Level hb) st)
   \<and> (derive dsa root = Some ha \<and> derive dsb root = Some hb \<and> Level root = Ptr a \<longrightarrow>
        (\<exists>st'. SetLevel ha x st = Some st'
           \<and> LevelVar_Level (Level hb) st' = Some x
           \<and> LevelVar_Level (Level ha) st' = Some x
           \<and> LevelVar_Level (Level root) st' = Some x))
   \<and> (Logger root \<noteq> NilPtr \<longrightarrow> (\<exists>h'. derive ds root = Some h'))"
proof (intro conjI impI)
  assume "derive ds root = Some h"
  then show "Level h = Level root" by (rule derive_Level)
next
  assume "derive dsa root = Some ha \<and> derive dsb root = Some hb"
  then have "Level ha = Level root" "Level hb = Level root"
    by (auto dest: derive_Level)
  then show "LevelVar_Level (Level ha) st = LevelVar_Level (Level hb) st" by simp
next
  assume "derive dsa root = Some ha \<and> derive dsb root = Some hb \<and> Level root = Ptr a"
  then have e: "Level ha = Ptr a" "Level hb = Ptr a" "Level root = Ptr a"
    by (auto dest: derive_Level)
  show "\<exists>st'. SetLevel ha x st = Some st'
           \<and> LevelVar_Level (Level hb) st' = Some x
           \<and> LevelVar_Level (Level ha) st' = Some x
           \<and> LevelVar_Level (Level root) st' = Some x"
    using e by (simp add: SetLevel_Ptr LevelVar_Level_def)
next
  assume "Logger root \<noteq> NilPtr"
  then obtain g where "Logger root = Ptr g" by (cases "Logger root") auto
  then show "\<exists>h'. derive ds root = Some h'" by (rule derive_total)
qed

theorem shared_LevelVar_witness:
  "derive [ByWith [1, 2]] root0 = Some child_a
   \<and> derive [ByWithGroup ''db'', ByWith [3]] root0 = Some child_b
   \<and> Level root0 = Ptr 0 \<and> Logger root0 \<noteq> NilPtr
   \<and> Level child_a = Level root0
   \<and> LevelVar_Level (Level child_a) world1 = LevelVar_Level (Level child_b) world1
   \<and> (\<exists>st'. SetLevel child_a LevelDebug world1 = Some st'
         \<and> LevelVar_Level (Level child_b) st' = Some LevelDebug
         \<and> LevelVar_Level (Level child_a) st' = Some LevelDebug
         \<and> LevelVar_Level (Level root0) st' = Some LevelDebug)
   \<and> (\<exists>h'. derive [ByWith [1, 2]] root0 = Some h')"
proof -
  have r: "Level root0 = Ptr 0" "Logger root0 \<noteq> NilPtr" by (simp_all add: root0_eq)
  show ?thesis
    using shared_LevelVar [where ds = "[ByWith [1, 2]]" and root = root0 and h = child_a
        and dsa = "[ByWith [1, 2]]" and ha = child_a
        and dsb = "[ByWithGroup ''db'', ByWith [3]]" and hb = child_b
        and st = world1 and a = 0 and x = LevelDebug]
      derive_child_a derive_child_b r
    by blast
qed

section \<open>The setters\<close>

text \<open>
  C6. On a logger that has a level cell, \<^verbatim>\<open>SetLevel(x)\<close> returns for every level \<open>x\<close> and
  every prior state, and afterwards the cell holds \<open>x\<close>; no other cell and nothing on
  standard error changes.
\<close>

theorem SetLevel_overwrites:
  "Level l = Ptr a \<Longrightarrow>
     \<exists>st'. SetLevel l x st = Some st'
       \<and> LevelVar_Level (Level l) st' = Some x
       \<and> (\<forall>b. b \<noteq> a \<longrightarrow> levelvars st' b = levelvars st b)
       \<and> stderr st' = stderr st"
  by (simp add: SetLevel_Ptr LevelVar_Level_def)

theorem SetLevel_overwrites_witness:
  "Level root0 = Ptr 0
   \<and> (\<exists>st'. SetLevel root0 LevelWarn world1 = Some st'
         \<and> LevelVar_Level (Level root0) st' = Some LevelWarn
         \<and> (\<forall>b. b \<noteq> 0 \<longrightarrow> levelvars st' b = levelvars world1 b)
         \<and> stderr st' = stderr world1)"
proof -
  have r: "Level root0 = Ptr 0" by (simp add: root0_eq)
  from SetLevel_overwrites [OF r, of LevelWarn world1] r show ?thesis by simp
qed

text \<open>
  C8. Calling \<^verbatim>\<open>SetLevel(x)\<close> a second time changes nothing: the two calls in a row end
  in the state the first call alone ends in (and on a nil level pointer the first call
  already panics). With a cell, the state after the first call is a fixed point of the
  second, the cell holds \<open>x\<close>, and records are admitted against \<open>x\<close>.
\<close>

theorem SetLevel_idempotent:
  "Option.bind (SetLevel l x st) (SetLevel l x) = SetLevel l x st
   \<and> (Level l = Ptr a \<longrightarrow>
        (\<exists>st1. SetLevel l x st = Some st1 \<and> SetLevel l x st1 = Some st1
           \<and> LevelVar_Level (Level l) st1 = Some x
           \<and> (\<forall>r. Enabled (levelvars st1 a) r = Enabled x r)))"
  by (cases "Level l") (simp_all add: SetLevel_def LevelVar_Set_def LevelVar_Level_def)

theorem SetLevel_idempotent_witness:
  "Level root0 = Ptr 0
   \<and> Option.bind (SetLevel root0 LevelDebug world1) (SetLevel root0 LevelDebug)
        = SetLevel root0 LevelDebug world1
   \<and> (\<exists>st1. SetLevel root0 LevelDebug world1 = Some st1
         \<and> SetLevel root0 LevelDebug st1 = Some st1
         \<and> LevelVar_Level (Level root0) st1 = Some LevelDebug
         \<and> (\<forall>r. Enabled (levelvars st1 0) r = Enabled LevelDebug r))"
proof -
  have r: "Level root0 = Ptr 0" by (simp add: root0_eq)
  from SetLevel_idempotent [of root0 LevelDebug world1 0] r show ?thesis by simp
qed

text \<open>
  C2. On a logger that has a level cell, \<^verbatim>\<open>SetLevelByCounter(i)\<close> returns for every
  integer \<open>i\<close> and leaves in the cell: Error for \<open>i \<le> 0\<close>, Warn for \<open>i = 1\<close>, Info for
  \<open>i = 2\<close>, Debug for \<open>i \<ge> 3\<close>; no other cell changes.
\<close>

theorem SetLevelByCounter_staircase:
  "Level l = Ptr a \<Longrightarrow>
     \<exists>st'. SetLevelByCounter l i st = Some st'
       \<and> (i \<le> 0 \<longrightarrow> levelvars st' a = LevelError)
       \<and> (i = 1 \<longrightarrow> levelvars st' a = LevelWarn)
       \<and> (i = 2 \<longrightarrow> levelvars st' a = LevelInfo)
       \<and> (i \<ge> 3 \<longrightarrow> levelvars st' a = LevelDebug)
       \<and> (\<forall>b. b \<noteq> a \<longrightarrow> levelvars st' b = levelvars st b)"
  by (simp add: SetLevelByCounter_def SetLevel_Ptr)

theorem SetLevelByCounter_staircase_witness:
  "Level root0 = Ptr 0
   \<and> (\<exists>st'. SetLevelByCounter root0 (- 5) world1 = Some st' \<and> levelvars st' 0 = LevelError)
   \<and> (\<exists>st'. SetLevelByCounter root0 1 world1 = Some st' \<and> levelvars st' 0 = LevelWarn)
   \<and> (\<exists>st'. SetLevelByCounter root0 2 world1 = Some st' \<and> levelvars st' 0 = LevelInfo)
   \<and> (\<exists>st'. SetLevelByCounter root0 100 world1 = Some st' \<and> levelvars st' 0 = LevelDebug)"
proof -
  have r: "Level root0 = Ptr 0" by (simp add: root0_eq)
  from SetLevelByCounter_staircase [OF r, of "- 5" world1]
    SetLevelByCounter_staircase [OF r, of 1 world1]
    SetLevelByCounter_staircase [OF r, of 2 world1]
    SetLevelByCounter_staircase [OF r, of 100 world1] r
  show ?thesis by auto
qed

text \<open>
  C3, as the code has it. \<^verbatim>\<open>SetLevelByName(name)\<close> lower-cases the name with
  \<^verbatim>\<open>strings.ToLower\<close> and looks the result up. When \<^verbatim>\<open>strings.ToLower\<close> maps \<open>name\<close> to
  one of the five names, which it does for every case variant of that name, a logger with
  a level cell gets the name's level stored in the cell and nil is returned. When
  \<^verbatim>\<open>strings.ToLower\<close> maps \<open>name\<close> to none of the five names, the call returns the error
  whose message quotes \<open>name\<close> itself, and the state is the one before the call. For a
  name of ASCII bytes only, being mapped to one of the five names is the same as being a
  case variant of one of them.
\<close>

theorem SetLevelByName_lookup:
  "((n, v) \<in> set level_names \<and> (case_variant n name \<or> ToLower U name = n)
      \<and> Level l = Ptr a \<longrightarrow>
      SetLevelByName U Q l name st = Some (None, st\<lparr>levelvars := (levelvars st)(a := v)\<rparr>))
   \<and> (ToLower U name \<notin> fst ` set level_names \<longrightarrow>
      SetLevelByName U Q l name st =
        Some (Some (Errorf (''invalid log level name '' @ Quote Q name
                 @ '': must be one of error, warn, info, debug'')), st))
   \<and> (list_all is_ascii name \<longrightarrow>
        (ToLower U name \<in> fst ` set level_names)
          = (\<exists>n' \<in> fst ` set level_names. case_variant n' name))"
proof (intro conjI impI)
  assume h: "(n, v) \<in> set level_names \<and> (case_variant n name \<or> ToLower U name = n)
      \<and> Level l = Ptr a"
  then have "ToLower U name = n"
    using case_variant_ToLower [OF level_names_lower, of n v name U] by blast
  with h show "SetLevelByName U Q l name st
      = Some (None, st\<lparr>levelvars := (levelvars st)(a := v)\<rparr>)"
    using SetLevelByName_known [of n v U name l a Q st] by blast
next
  assume "ToLower U name \<notin> fst ` set level_names"
  then show "SetLevelByName U Q l name st =
        Some (Some (Errorf (''invalid log level name '' @ Quote Q name
                 @ '': must be one of error, warn, info, debug'')), st)"
    by (rule SetLevelByName_unknown)
next
  assume "list_all is_ascii name"
  then show "(ToLower U name \<in> fst ` set level_names)
          = (\<exists>n' \<in> fst ` set level_names. case_variant n' name)"
    by (rule ascii_recognized_iff)
qed

theorem SetLevelByName_lookup_witness:
  "(''warning'', LevelWarn) \<in> set level_names \<and> case_variant ''warning'' ''Warning''
   \<and> Level root0 = Ptr 0
   \<and> SetLevelByName id id root0 ''Warning'' world1
        = Some (None, world1\<lparr>levelvars := (levelvars world1)(0 := LevelWarn)\<rparr>)
   \<and> ToLower id ''verbose'' \<notin> fst ` set level_names
   \<and> SetLevelByName id id root0 ''verbose'' world1
        = Some (Some (Errorf (''invalid log level name '' @ [CHR 0x22] @ ''verbose''
              @ [CHR 0x22] @ '': must be one of error, warn, info, debug'')), world1)
   \<and> list_all is_ascii ''Warning''
   \<and> ToLower id ''Warning'' \<in> fst ` set level_names
   \<and> (\<exists>n' \<in> fst ` set level_names. case_variant n' ''Warning'')"
proof -
  have m: "(''warning'', LevelWarn) \<in> set level_names" by (simp add: level_names_def)
  have c: "case_variant ''warning'' ''Warning''" by code_simp
  have r: "Level root0 = Ptr 0" by (simp add: root0_eq)
  have a: "list_all is_ascii ''Warning''" by code_simp
  have p: "list_all is_plain ''verbose''" by code_simp
  have t: "ToLower id ''Warning'' = ''warning''" by code_simp
  from SetLevelByName_lookup [of "''warning''" LevelWarn "''Warning''" id root0 0 id world1]
    SetLevelByName_lookup [of "''warning''" LevelWarn "''verbose''" id root0 0 id world1]
    m c r a t verbose_unknown Quote_plain [OF p, of id]
  show ?thesis by (simp add: fst_level_names)
qed

text \<open>
  The claim as stated fails outside ASCII: the name \<^verbatim>\<open>C4 B0\<close> \<^verbatim>\<open>NFO\<close> is a case variant of
  none of the five names, the letters of a variant being those of the name in lower or
  upper case, yet \<^verbatim>\<open>strings.ToLower\<close> maps it to \<^verbatim>\<open>info\<close>, so the call stores Info and
  returns nil instead of an error.
\<close>

theorem SetLevelByName_other_string_counterexample:
  "\<not> case_variant ''error'' dotted_INFO \<and> \<not> case_variant ''warn'' dotted_INFO
   \<and> \<not> case_variant ''warning'' dotted_INFO \<and> \<not> case_variant ''info'' dotted_INFO
   \<and> \<not> case_variant ''debug'' dotted_INFO
   \<and> SetLevelByName Map_ToLower_I_dot id root0 dotted_INFO world1
        = Some (None, world1\<lparr>levelvars := (levelvars world1)(0 := LevelInfo)\<rparr>)"
proof -
  have v: "\<not> case_variant ''error'' dotted_INFO" "\<not> case_variant ''warn'' dotted_INFO"
    "\<not> case_variant ''warning'' dotted_INFO" "\<not> case_variant ''info'' dotted_INFO"
    "\<not> case_variant ''debug'' dotted_INFO"
    by code_simp+
  have t: "ToLower Map_ToLower_I_dot dotted_INFO = ''info''" by code_simp
  have m: "(''info'', LevelInfo) \<in> set level_names" by (simp add: level_names_def)
  have r: "Level root0 = Ptr 0" by (simp add: root0_eq)
  from SetLevelByName_known [OF m t r, of id world1] v show ?thesis by simp
qed

text \<open>
  C4. A failing \<^verbatim>\<open>SetLevelByName\<close> writes nothing: for every name that
  \<^verbatim>\<open>strings.ToLower\<close> maps to none of the five names (for an ASCII name: that is a case
  variant of none of them), every logger and every prior state, the call returns an
  error to its caller, without panic, and the state after the call is the state before
  it.
\<close>

theorem SetLevelByName_failure_atomic:
  "(ToLower U name \<notin> fst ` set level_names
      \<or> (list_all is_ascii name
           \<and> (\<forall>n \<in> fst ` set level_names. \<not> case_variant n name))) \<Longrightarrow>
   \<exists>e. SetLevelByName U Q l name st = Some (Some e, st)"
proof -
  assume "ToLower U name \<notin> fst ` set level_names
      \<or> (list_all is_ascii name
           \<and> (\<forall>n \<in> fst ` set level_names. \<not> case_variant n name))"
  then have "ToLower U name \<notin> fst ` set level_names"
    using ascii_recognized_iff [of name U] by blast
  then show ?thesis by (simp add: SetLevelByName_unknown)
qed

theorem SetLevelByName_failure_atomic_witness:
  "ToLower id ''verbose'' \<notin> fst ` set level_names
   \<and> (\<exists>e. SetLevelByName id id root0 ''verbose'' world1 = Some (Some e, world1))
   \<and> LevelVar_Level (Level root0) world1 = Some LevelInfo"
proof -
  have "\<exists>e. SetLevelByName id id root0 ''verbose'' world1 = Some (Some e, world1)"
    using verbose_unknown by (intro SetLevelByName_failure_atomic) simp
  then show ?thesis
    using verbose_unknown by (simp add: root0_eq world1_eq LevelVar_Level_def LevelInfo_def)
qed

section \<open>Construction\<close>

text \<open>
  C10. For every writer, every handler type (valid or not) and every prior state,
  \<^verbatim>\<open>New\<close> returns a logger whose level pointer is the cell it has just allocated, the
  handler options refer to that same cell, and the cell holds Info, the zero value of
  \<^verbatim>\<open>slog.LevelVar\<close>: the caller has no say in the initial level.
\<close>

theorem New_initial_level:
  "Level (fst (New Q out handler st)) = Ptr (next_addr st)
   \<and> LevelVar_Level (Level (fst (New Q out handler st))) (snd (New Q out handler st))
        = Some LevelInfo
   \<and> (\<exists>g. Logger (fst (New Q out handler st)) = Ptr g \<and> opts_Level g = next_addr st)"
  by (simp add: New_def Let_def LevelVar_Level_def LevelInfo_def)

text \<open>
  C5, as the code has it. For every writer and every handler type that is none of
  \<^verbatim>\<open>console\<close>, \<^verbatim>\<open>text\<close>, \<^verbatim>\<open>json\<close>, \<^verbatim>\<open>New\<close> returns a logger over the JSON handler on
  that writer, with a level cell, and appends to standard error the line
  \<^verbatim>\<open>warning: invalid handler type Q, falling back to JSON\<close> and a newline, where \<^verbatim>\<open>Q\<close> is
  the value as \<^verbatim>\<open>%q\<close> quotes it. When the value consists of printable ASCII characters
  other than the double quote and the backslash, \<^verbatim>\<open>Q\<close> is the value between double
  quotes, which is the form the specification gives.
\<close>

theorem New_invalid_handler_fallback:
  "\<not> IsValid handler \<Longrightarrow>
     (\<exists>g. Logger (fst (New Q out handler st)) = Ptr g \<and> kind g = JSONHandler
          \<and> writer g = out \<and> opts_Level g = next_addr st \<and> bound g = [])
     \<and> Level (fst (New Q out handler st)) = Ptr (next_addr st)
     \<and> stderr (snd (New Q out handler st)) =
          stderr st @ ''warning: invalid handler type '' @ Quote Q handler
            @ '', falling back to JSON'' @ [CHR 0x0A]
     \<and> (list_all is_plain handler \<longrightarrow>
          stderr (snd (New Q out handler st)) =
            stderr st @ claimed_diagnostic handler @ [CHR 0x0A])"
proof -
  assume "\<not> IsValid handler"
  then have n: "handler \<noteq> Console" "handler \<noteq> Text" "handler \<noteq> JSON"
    by (auto simp: IsValid_def split: if_splits)
  then show ?thesis
    by (simp add: New_def Let_def HandlerType_String_def claimed_diagnostic_def Quote_plain)
qed

theorem New_invalid_handler_fallback_witness:
  "\<not> IsValid ''bogus'' \<and> list_all is_plain ''bogus''
   \<and> (\<exists>g. Logger (fst (New id () ''bogus'' world0 :: (unit, nat) Logger \<times> world)) = Ptr g
          \<and> kind g = JSONHandler)
   \<and> stderr (snd (New id () ''bogus'' world0 :: (unit, nat) Logger \<times> world)) =
        ''warning: invalid handler type '' @ [CHR 0x22] @ ''bogus'' @ [CHR 0x22]
          @ '', falling back to JSON'' @ [CHR 0x0A]"
proof -
  have v: "\<not> IsValid ''bogus''" by code_simp
  have p: "list_all is_plain ''bogus''" by code_simp
  have e: "stderr world0 = []" by (simp add: world0_def)
  from New_invalid_handler_fallback [OF v, of id "()" world0] v p e
  show ?thesis by (auto simp: claimed_diagnostic_def)
qed

text \<open>
  The claim as stated fails where \<^verbatim>\<open>%q\<close> escapes: for the handler type consisting of one
  double quote, what \<^verbatim>\<open>New\<close> writes is not the stated line with the value as it is,
  with or without the newline.
\<close>

theorem New_diagnostic_form_counterexample:
  "\<not> IsValid [CHR 0x22]
   \<and> stderr (snd (New id () [CHR 0x22] world0 :: (unit, nat) Logger \<times> world))
        \<noteq> stderr world0 @ claimed_diagnostic [CHR 0x22]
   \<and> stderr (snd (New id () [CHR 0x22] world0 :: (unit, nat) Logger \<times> world))
        \<noteq> stderr world0 @ claimed_diagnostic [CHR 0x22] @ [CHR 0x0A]"
  by code_simp

section \<open>Severities and admission\<close>

text \<open>
  C7. The four constants are distinct and ordered Error, Warn, Info, Debug from least
  to most verbose (numerically Debug is the least and Error the greatest). With the cell
  at the severity of rank \<open>i\<close>, a record at the severity of rank \<open>j\<close> is admitted exactly
  when \<open>j \<le> i\<close>, that is when it is at least as important as the threshold. So an Error
  record is admitted at each of the four thresholds, and a Debug record only at the
  threshold Debug.
\<close>

theorem severity_order:
  "LevelDebug < LevelInfo \<and> LevelInfo < LevelWarn \<and> LevelWarn < LevelError
   \<and> distinct severities
   \<and> (\<forall>i < length severities. \<forall>j < length severities.
        Enabled (severities ! i) (severities ! j) = (j \<le> i))
   \<and> (\<forall>t \<in> set severities. Enabled t LevelError)
   \<and> (\<forall>t \<in> set severities. Enabled t LevelDebug = (t = LevelDebug))"
  by (auto simp: severities_def Enabled_def LevelError_def LevelWarn_def LevelInfo_def
      LevelDebug_def less_Suc_eq nth_Cons')

theorem severity_order_witness:
  "LevelInfo \<in> set severities \<and> Enabled LevelInfo LevelError
   \<and> \<not> Enabled LevelInfo LevelDebug \<and> Enabled LevelDebug LevelDebug
   \<and> severities ! 2 = LevelInfo \<and> severities ! 1 = LevelWarn
   \<and> Enabled LevelInfo LevelWarn \<and> \<not> Enabled LevelWarn LevelInfo"
proof -
  have m: "LevelInfo \<in> set severities" "LevelDebug \<in> set severities"
    by (simp_all add: severities_def)
  have d: "LevelInfo \<noteq> LevelDebug" by (simp add: LevelInfo_def LevelDebug_def)
  have n: "severities ! 2 = LevelInfo" "severities ! 1 = LevelWarn"
    "(2::nat) < length severities" "(1::nat) < length severities"
    by (simp_all add: severities_def)
  from severity_order have a: "\<forall>t \<in> set severities. Enabled t LevelError"
    and b: "\<forall>t \<in> set severities. Enabled t LevelDebug = (t = LevelDebug)"
    and c: "\<forall>i < length severities. \<forall>j < length severities.
        Enabled (severities ! i) (severities ! j) = (j \<le> i)"
    by blast+
  from c n have "Enabled (severities ! 2) (severities ! 1) = ((1::nat) \<le> 2)"
    and "Enabled (severities ! 1) (severities ! 2) = ((2::nat) \<le> 1)"
    by blast+
  with n have "Enabled LevelInfo LevelWarn" "\<not> Enabled LevelWarn LevelInfo" by simp_all
  with a b m d n show ?thesis by auto
qed

end
